theory Spec2Isabelle
  imports Complex_Main "HOL-Library.Char_ord" "HOL-Library.List_Lexorder"
    "HOL-Library.Sublist" "HOL-Library.Multiset"
begin

section \<open>Values of the host language\<close>

text \<open>
  The ledger of \<^verbatim>\<open>app.py\<close> exchanges JSON documents with its data file and receives
  JSON values as keyword arguments. \<open>pyval\<close> is the type of these values. An integer
  literal of JSON is an \<open>int\<close> (\<open>PInt\<close>), any other number a \<open>float\<close> (\<open>PNum\<close>), read as
  the real number it denotes: floating-point amounts are idealised as reals throughout
  (sums and differences are exact, there is no NaN and no infinity). A dictionary lists each key once, in insertion
  order.
\<close>

datatype pyval =
    PNone
  | PBool bool
  | PInt int
  | PNum real
  | PStr string
  | PList "pyval list"
  | PDict "(string \<times> pyval) list"

datatype exn =
  ValueError | TypeError | AttributeError | OverflowError | UnicodeEncodeError

text \<open>
  What a call does: it returns a value, it raises, or it goes on with a value that the
  declared field types of \<open>Entry\<close> (\<open>title: str\<close>, \<open>category: str\<close>, ...) exclude. The
  source performs no check in the last case and stores the value as it is; the typed model
  has no entry for it and makes no statement about what follows.
\<close>

datatype 'a outcome = Returns 'a | Raises exn | Untyped

text \<open>Truthiness, as used by \<open>x or y\<close>.\<close>

fun truthy :: "pyval \<Rightarrow> bool" where
  "truthy PNone = False"
| "truthy (PBool b) = b"
| "truthy (PInt n) = (n \<noteq> 0)"
| "truthy (PNum r) = (r \<noteq> 0)"
| "truthy (PStr s) = (s \<noteq> [])"
| "truthy (PList xs) = (xs \<noteq> [])"
| "truthy (PDict kvs) = (kvs \<noteq> [])"

definition py_or :: "pyval \<Rightarrow> pyval \<Rightarrow> pyval" where
  "py_or a b = (if truthy a then a else b)"

text \<open>\<open>d.get(k, default)\<close> on a dictionary.\<close>

definition dict_get :: "(string \<times> pyval) list \<Rightarrow> string \<Rightarrow> pyval \<Rightarrow> pyval" where
  "dict_get d k dflt = (case map_of d k of None \<Rightarrow> dflt | Some v \<Rightarrow> v)"

text \<open>
  What the code takes from outside itself. For one constructor call: the date
  \<open>datetime.now().date().isoformat()\<close> gives and the identifier \<open>str(uuid4())\<close> gives.
  From the standard library: the reading of a string as a number (\<open>None\<close> where
  \<open>float(s)\<close> raises \<open>ValueError\<close>), the double nearest to an integer, \<open>str.lower\<close>, and
  \<open>str(v)\<close> for a value that is neither a string nor \<open>None\<close>. From the object model: the names that \<open>hasattr\<close> finds on
  the class of an entry, which are its methods and the special attributes of every
  object. From the process: what \<open>print\<close> raises on the standard output when that cannot
  take the message (\<open>None\<close>: the message is printed). The theorems hold for every such
  environment.
\<close>

record env =
  now_date :: string
  new_uuid :: string
  str_to_float :: "string \<Rightarrow> real option"
  int_to_float :: "int \<Rightarrow> real"
  lower :: "string \<Rightarrow> string"
  str_of :: "pyval \<Rightarrow> string"
  class_attr :: "string \<Rightarrow> bool"
  print_error :: "exn option"

text \<open>
  \<open>float(v)\<close>. An \<open>int\<close> converts unless it is too large for a double: the largest
  double is \<open>2 ^ 1024 - 2 ^ 971\<close>, and an integer from \<open>2 ^ 1024 - 2 ^ 970\<close> on rounds
  beyond it. Up to \<open>2 ^ 53\<close> every integer is a double; a larger one is rounded to the
  nearest double.
\<close>

definition float_limit :: int where
  "float_limit = 2 ^ 1024 - 2 ^ 970"

definition exact_limit :: int where
  "exact_limit = 2 ^ 53"

fun py_float :: "env \<Rightarrow> pyval \<Rightarrow> exn + real" where
  "py_float E (PNum r) = Inr r"
| "py_float E (PInt n) =
     (if float_limit \<le> \<bar>n\<bar> then Inl OverflowError
      else if \<bar>n\<bar> \<le> exact_limit then Inr (of_int n)
      else Inr (int_to_float E n))"
| "py_float E (PBool b) = Inr (if b then 1 else 0)"
| "py_float E (PStr s) = (case str_to_float E s of None \<Rightarrow> Inl ValueError | Some r \<Rightarrow> Inr r)"
| "py_float E PNone = Inl TypeError"
| "py_float E (PList xs) = Inl TypeError"
| "py_float E (PDict kvs) = Inl TypeError"

fun as_str :: "pyval \<Rightarrow> string option" where
  "as_str (PStr s) = Some s"
| "as_str v = None"

section \<open>Entry\<close>

text \<open>
  The attributes of \<open>Entry\<close>, with the types its constructor declares. \<open>id'\<close> and \<open>note'\<close>
  are the attributes \<open>id\<close> and \<open>note\<close>.
\<close>

record entry =
  id' :: string
  title :: string
  amount :: real
  category :: string
  kind :: string
  note' :: string
  date :: string

text \<open>
  \<open>Entry.__init__\<close>: \<open>self.id = id or str(uuid4())\<close>, \<open>self.amount = float(amount)\<close>,
  \<open>self.date = date or datetime.now().date().isoformat()\<close>, the other arguments stored as
  they come. A failing \<open>float\<close> raises whatever the other arguments are.
\<close>

definition Entry_init ::
  "env \<Rightarrow> pyval \<Rightarrow> pyval \<Rightarrow> pyval \<Rightarrow> pyval \<Rightarrow> pyval \<Rightarrow> pyval \<Rightarrow> pyval \<Rightarrow> entry outcome" where
  "Entry_init E title_arg amount_arg category_arg kind_arg note_arg date_arg id_arg =
     (case py_float E amount_arg of
        Inl x \<Rightarrow> Raises x
      | Inr a \<Rightarrow>
         (case (as_str (py_or id_arg (PStr (new_uuid E))), as_str title_arg,
                as_str category_arg, as_str kind_arg, as_str note_arg,
                as_str (py_or date_arg (PStr (now_date E)))) of
            (Some i, Some t, Some c, Some k, Some n, Some d) \<Rightarrow>
              Returns \<lparr>id' = i, title = t, amount = a, category = c, kind = k,
                       note' = n, date = d\<rparr>
          | _ \<Rightarrow> Untyped))"

definition to_dict :: "entry \<Rightarrow> (string \<times> pyval) list" where
  "to_dict e =
     [(''id'', PStr (id' e)), (''title'', PStr (title e)), (''amount'', PNum (amount e)),
      (''category'', PStr (category e)), (''kind'', PStr (kind e)),
      (''note'', PStr (note' e)), (''date'', PStr (date e))]"

definition from_dict :: "env \<Rightarrow> (string \<times> pyval) list \<Rightarrow> entry outcome" where
  "from_dict E d =
     Entry_init E (dict_get d ''title'' (PStr '''')) (dict_get d ''amount'' (PInt 0))
       (dict_get d ''category'' (PStr '''')) (dict_get d ''kind'' (PStr ''expense''))
       (dict_get d ''note'' (PStr '''')) (dict_get d ''date'' PNone)
       (dict_get d ''id'' PNone)"

section \<open>Ledger\<close>

text \<open>
  What a file holds: the serialisation of a JSON document (\<open>json.dump\<close> followed by
  \<open>json.load\<close> gives the document back), the text of a CSV export (which is not JSON: it
  starts with the header's \<open>id\<close>), or anything else that \<open>open\<close> or \<open>json.load\<close> fails on.
  Writing a file always succeeds.
\<close>

datatype content = Json pyval | Csv string | Garbage

text \<open>
  The state: the list \<open>self.entries\<close> and the files the process sees (\<open>None\<close>: no such
  file). Entries are held by value: the list never holds one object twice, which is the
  case when every \<open>add\<close> is given a newly constructed \<open>Entry\<close>, as the routes do.
\<close>

record ledger =
  entries :: "entry list"
  files :: "string \<Rightarrow> content option"

definition DATA_FILE :: string where
  "DATA_FILE = ''data.json''"

definition save :: "ledger \<Rightarrow> ledger" where
  "save s = s\<lparr>files := (files s)(DATA_FILE \<mapsto>
       Json (PList (map (\<lambda>e. PDict (to_dict e)) (entries s))))\<rparr>"

text \<open>What \<open>for d in data\<close> runs over; a number, a boolean and \<open>None\<close> are not iterable.\<close>

fun py_iter :: "pyval \<Rightarrow> exn + pyval list" where
  "py_iter (PList xs) = Inr xs"
| "py_iter (PDict kvs) = Inr (map (\<lambda>kv. PStr (fst kv)) kvs)"
| "py_iter (PStr s) = Inr (map (\<lambda>c. PStr [c]) s)"
| "py_iter v = Inl TypeError"

text \<open>\<open>Entry.from_dict(d)\<close> for an element of the document: only a dictionary has \<open>get\<close>.\<close>

fun from_item :: "env \<Rightarrow> pyval \<Rightarrow> entry outcome" where
  "from_item E (PDict d) = from_dict E d"
| "from_item E v = Raises AttributeError"

text \<open>
  The comprehension \<open>[Entry.from_dict(d) for d in data]\<close>; the \<open>n\<close>-th element is built
  in the environment \<open>Es n\<close>. An exception anywhere ends it, also after an element was
  stored with a value outside the declared types.
\<close>

fun from_items :: "(nat \<Rightarrow> env) \<Rightarrow> nat \<Rightarrow> pyval list \<Rightarrow> entry list outcome" where
  "from_items Es n [] = Returns []"
| "from_items Es n (d # ds) =
     (case from_item (Es n) d of
        Raises x \<Rightarrow> Raises x
      | r \<Rightarrow> (case from_items Es (Suc n) ds of
                Raises x \<Rightarrow> Raises x
              | Untyped \<Rightarrow> Untyped
              | Returns es \<Rightarrow> (case r of Returns e \<Rightarrow> Returns (e # es) | _ \<Rightarrow> Untyped)))"

text \<open>The body of the \<open>try\<close> block of \<open>load\<close>.\<close>

definition read_entries :: "(nat \<Rightarrow> env) \<Rightarrow> content \<Rightarrow> entry list outcome" where
  "read_entries Es c =
     (case c of
        Json v \<Rightarrow> (case py_iter v of Inl x \<Rightarrow> Raises x | Inr ds \<Rightarrow> from_items Es 0 ds)
      | Csv t \<Rightarrow> Raises ValueError
      | Garbage \<Rightarrow> Raises ValueError)"

text \<open>
  \<open>load\<close>. The \<open>except\<close> branch prints the message before it empties the collection; a
  \<open>print\<close> that raises there leaves \<open>load\<close> with that exception. The standard output is
  the same during the whole call, so it is taken from \<open>Es 0\<close>.
\<close>

definition load :: "(nat \<Rightarrow> env) \<Rightarrow> ledger \<Rightarrow> ledger outcome" where
  "load Es s =
     (case files s DATA_FILE of
        None \<Rightarrow> Returns (s\<lparr>entries := []\<rparr>)
      | Some c \<Rightarrow>
         (case read_entries Es c of
            Returns es \<Rightarrow> Returns (s\<lparr>entries := es\<rparr>)
          | Raises x \<Rightarrow>
             (case print_error (Es 0) of
                None \<Rightarrow> Returns (s\<lparr>entries := []\<rparr>)
              | Some y \<Rightarrow> Raises y)
          | Untyped \<Rightarrow> Untyped))"

text \<open>\<open>Ledger.__init__\<close>, on the files \<open>fs\<close>.\<close>

definition Ledger_init :: "(nat \<Rightarrow> env) \<Rightarrow> (string \<Rightarrow> content option) \<Rightarrow> ledger outcome" where
  "Ledger_init Es fs = load Es \<lparr>entries = [], files = fs\<rparr>"

definition add :: "ledger \<Rightarrow> entry \<Rightarrow> ledger" where
  "add s e = save (s\<lparr>entries := entries s @ [e]\<rparr>)"

definition delete :: "ledger \<Rightarrow> string \<Rightarrow> ledger \<times> bool" where
  "delete s entry_id =
     (let before = length (entries s);
          s1 = s\<lparr>entries := filter (\<lambda>e. id' e \<noteq> entry_id) (entries s)\<rparr>;
          changed = (length (entries s1) < before)
      in if changed then (save s1, changed) else (s1, changed))"

text \<open>
  \<open>update\<close> on entries of the declared types. The keyword arguments come in the order of
  \<open>kwargs.items()\<close>. \<open>hasattr(e, k)\<close> holds for the seven attributes set by the
  constructor and for the names found on the class; any other name is passed over. A
  value of another type for a text attribute, and the rebinding of a name found on the
  class, lead out of the declared types; what the code does then is described by
  \<open>update_obj\<close> below, on objects with arbitrary attributes.
\<close>

definition str_fields :: "string list" where
  "str_fields = [''id'', ''title'', ''category'', ''kind'', ''note'', ''date'']"

text \<open>\<open>setattr(e, k, s)\<close> for a string \<open>s\<close>.\<close>

definition set_str :: "entry \<Rightarrow> string \<Rightarrow> string \<Rightarrow> entry" where
  "set_str e k v =
     (if k = ''id'' then e\<lparr>id' := v\<rparr>
      else if k = ''title'' then e\<lparr>title := v\<rparr>
      else if k = ''category'' then e\<lparr>category := v\<rparr>
      else if k = ''kind'' then e\<lparr>kind := v\<rparr>
      else if k = ''note'' then e\<lparr>note' := v\<rparr>
      else if k = ''date'' then e\<lparr>date := v\<rparr>
      else e)"

datatype loop_end = Finished | Raised exn | Left_types

text \<open>
  The inner loop of \<open>update\<close> over \<open>kwargs.items()\<close>: the entry as it stands when the
  loop ends, and how it ended. A failing \<open>float(v)\<close> leaves the attributes set before it.
\<close>

fun set_attrs :: "env \<Rightarrow> entry \<Rightarrow> (string \<times> pyval) list \<Rightarrow> entry \<times> loop_end" where
  "set_attrs E e [] = (e, Finished)"
| "set_attrs E e ((k, v) # kws) =
     (if v = PNone then set_attrs E e kws
      else if k = ''amount'' then
        (case py_float E v of
           Inl x \<Rightarrow> (e, Raised x)
         | Inr a \<Rightarrow> set_attrs E (e\<lparr>amount := a\<rparr>) kws)
      else if k \<in> set str_fields then
        (case v of
           PStr t \<Rightarrow> set_attrs E (set_str e k t) kws
         | _ \<Rightarrow> (e, Left_types))
      else if class_attr E k then (e, Left_types)
      else set_attrs E e kws)"

datatype update_result =
    Update_returns ledger "entry option"
  | Update_raises ledger exn
  | Update_untyped

text \<open>
  The outer loop of \<open>update\<close>: \<open>pre\<close> are the entries already passed over. The first entry
  with the identifier is changed, the ledger is saved and the entry returned; no entry
  with the identifier gives \<open>None\<close> and no save.
\<close>

fun update_loop ::
  "env \<Rightarrow> ledger \<Rightarrow> entry list \<Rightarrow> entry list \<Rightarrow> string \<Rightarrow> (string \<times> pyval) list
     \<Rightarrow> update_result" where
  "update_loop E s pre [] entry_id kwargs = Update_returns s None"
| "update_loop E s pre (e # rest) entry_id kwargs =
     (if id' e = entry_id then
        (case set_attrs E e kwargs of
           (e1, Finished) \<Rightarrow>
             Update_returns (save (s\<lparr>entries := pre @ e1 # rest\<rparr>)) (Some e1)
         | (e1, Raised x) \<Rightarrow> Update_raises (s\<lparr>entries := pre @ e1 # rest\<rparr>) x
         | (e1, Left_types) \<Rightarrow> Update_untyped)
      else update_loop E s (pre @ [e]) rest entry_id kwargs)"

definition update :: "env \<Rightarrow> ledger \<Rightarrow> string \<Rightarrow> (string \<times> pyval) list \<Rightarrow> update_result" where
  "update E s entry_id kwargs = update_loop E s [] (entries s) entry_id kwargs"

text \<open>\<open>kw in s\<close> on strings: \<open>kw\<close> starts at some position of \<open>s\<close>.\<close>

fun startswith :: "string \<Rightarrow> string \<Rightarrow> bool" where
  "startswith s [] = True"
| "startswith [] (k # kw) = False"
| "startswith (c # s) (k # kw) = (c = k \<and> startswith s kw)"

fun str_in :: "string \<Rightarrow> string \<Rightarrow> bool" where
  "str_in kw [] = (kw = [])"
| "str_in kw (c # s) = (startswith (c # s) kw \<or> str_in kw s)"

definition search :: "env \<Rightarrow> ledger \<Rightarrow> string \<Rightarrow> entry list" where
  "search E s keyword =
     (let kw = lower E keyword
      in filter (\<lambda>e. str_in kw (lower E (title e)) \<or> str_in kw (lower E (category e))
                     \<or> str_in kw (lower E (note' e))) (entries s))"

text \<open>
  \<open>sorted(xs, key=f, reverse=True)\<close>: descending keys, entries with equal keys in their
  original order. The library obtains it by sorting the reversed list stably and
  reversing the result. Strings compare by code point, lexicographically.
\<close>

definition sorted_reverse :: "('a \<Rightarrow> string) \<Rightarrow> 'a list \<Rightarrow> 'a list" where
  "sorted_reverse f xs = rev (sort_key f (rev xs))"

definition str_or :: "string \<Rightarrow> string \<Rightarrow> string" where
  "str_or a b = (if a \<noteq> [] then a else b)"

definition list_all' :: "ledger \<Rightarrow> entry list" where
  "list_all' s = sorted_reverse (\<lambda>x. str_or (date x) []) (entries s)"

text \<open>\<open>sum(xs)\<close>: starting from \<open>0\<close>, the elements added one after the other.\<close>

definition py_sum :: "real list \<Rightarrow> real" where
  "py_sum xs = foldl (+) 0 xs"

definition total_balance :: "ledger \<Rightarrow> (string \<times> real) list" where
  "total_balance s =
     (let income = py_sum (map amount (filter (\<lambda>e. kind e = ''income'') (entries s)));
          expense = py_sum (map amount (filter (\<lambda>e. kind e = ''expense'') (entries s)))
      in [(''income'', income), (''expense'', expense), (''balance'', income - expense)])"

text \<open>
  \<open>csv.DictWriter\<close> with the default dialect: fields joined by commas, each row ended by
  carriage return and line feed; a field holding a comma, a double quote, a carriage
  return or a line feed is put between double quotes, with every double quote in it
  doubled. \<open>None\<close> is written as the empty field, a string as it is, any other value
  through \<open>str\<close>.
\<close>

definition fieldnames :: "string list" where
  "fieldnames = [''id'', ''date'', ''title'', ''category'', ''kind'', ''amount'', ''note'']"

definition LF :: char where
  "LF = CHR 0x0A"

definition CR :: char where
  "CR = CHR 0x0D"

definition DQ :: char where
  "DQ = CHR 0x22"

definition csv_cell :: "env \<Rightarrow> pyval \<Rightarrow> string" where
  "csv_cell E v = (case v of PNone \<Rightarrow> [] | PStr t \<Rightarrow> t | _ \<Rightarrow> str_of E v)"

definition needs_quote :: "string \<Rightarrow> bool" where
  "needs_quote t = list_ex (\<lambda>c. c = CHR '','' \<or> c = DQ \<or> c = CR \<or> c = LF) t"

definition csv_field :: "string \<Rightarrow> string" where
  "csv_field t =
     (if needs_quote t
      then DQ # concat (map (\<lambda>c. if c = DQ then [DQ, DQ] else [c]) t) @ [DQ]
      else t)"

fun csv_join :: "string list \<Rightarrow> string" where
  "csv_join [] = []"
| "csv_join [f] = f"
| "csv_join (f # g # fs) = f @ CHR '','' # csv_join (g # fs)"

definition writerow :: "string list \<Rightarrow> string" where
  "writerow fs = csv_join (map csv_field fs) @ [CR, LF]"

text \<open>\<open>DictWriter.writerow(row)\<close>: the values of the row looked up in the order of \<open>fieldnames\<close>.\<close>

definition dict_writerow :: "env \<Rightarrow> (string \<times> pyval) list \<Rightarrow> string" where
  "dict_writerow E row = writerow (map (\<lambda>k. csv_cell E (dict_get row k (PStr []))) fieldnames)"

definition export_csv :: "env \<Rightarrow> ledger \<Rightarrow> string \<Rightarrow> ledger \<times> string" where
  "export_csv E s csv_path =
     (let text = writerow fieldnames
                 @ concat (map (\<lambda>e. dict_writerow E (to_dict e)) (list_all' s))
      in (s\<lparr>files := (files s)(csv_path \<mapsto> Csv text)\<rparr>, csv_path))"

text \<open>The lines of a text are counted by its line feeds.\<close>

definition line_count :: "string \<Rightarrow> nat" where
  "line_count t = count_list t LF"

section \<open>Update on objects\<close>

text \<open>
  \<open>update\<close> uses \<open>hasattr\<close> and \<open>setattr\<close>, which work on whatever attributes an object
  has and take values of any type. Here an entry is what the interpreter holds: its
  instance dictionary, the attributes in the order in which they were first set. The
  constructor sets \<open>id\<close>, \<open>title\<close>, \<open>amount\<close>, \<open>category\<close>, \<open>kind\<close>, \<open>note\<close> and \<open>date\<close> in
  this order, so the object of an entry of the declared types is its \<open>to_dict\<close>.
\<close>

type_synonym obj = "(string \<times> pyval) list"

text \<open>\<open>d[k] = v\<close>: the value of an old key is replaced in place, a new key comes last.\<close>

fun dict_set :: "obj \<Rightarrow> string \<Rightarrow> pyval \<Rightarrow> obj" where
  "dict_set [] k v = [(k, v)]"
| "dict_set (kv # d) k v = (if fst kv = k then (k, v) # d else kv # dict_set d k v)"

text \<open>\<open>hasattr(e, k)\<close>: a key of the instance dictionary or a name found on the class.\<close>

definition py_hasattr :: "env \<Rightarrow> obj \<Rightarrow> string \<Rightarrow> bool" where
  "py_hasattr E ob k = (k \<in> set (map fst ob) \<or> class_attr E k)"

text \<open>
  \<open>setattr(e, k, v)\<close>. Three names are taken by descriptors of the object type:
  \<open>__dict__\<close> replaces the whole instance dictionary and accepts only a dictionary,
  \<open>__class__\<close> accepts only a class, which no JSON value is, and \<open>__weakref__\<close> cannot be
  written. Every other name is stored in the instance dictionary, where the name of a
  method then hides the method.
\<close>

definition py_setattr :: "obj \<Rightarrow> string \<Rightarrow> pyval \<Rightarrow> exn + obj" where
  "py_setattr ob k v =
     (if k = ''__dict__'' then (case v of PDict d \<Rightarrow> Inr d | _ \<Rightarrow> Inl TypeError)
      else if k = ''__class__'' then Inl TypeError
      else if k = ''__weakref__'' then Inl AttributeError
      else Inr (dict_set ob k v))"

definition field_names :: "string list" where
  "field_names = [''id'', ''title'', ''amount'', ''category'', ''kind'', ''note'', ''date'']"

text \<open>
  \<open>e.to_dict()\<close> on an object: calling a value that hides the method raises \<open>TypeError\<close>, a
  missing attribute raises \<open>AttributeError\<close>.
\<close>

definition to_dict_obj :: "obj \<Rightarrow> exn + (string \<times> pyval) list" where
  "to_dict_obj ob =
     (if ''to_dict'' \<in> set (map fst ob) then Inl TypeError
      else (case those (map (map_of ob) field_names) of
              None \<Rightarrow> Inl AttributeError
            | Some vs \<Rightarrow> Inr (zip field_names vs)))"

fun to_dicts :: "obj list \<Rightarrow> exn + (string \<times> pyval) list list" where
  "to_dicts [] = Inr []"
| "to_dicts (ob # obs) =
     (case to_dict_obj ob of
        Inl x \<Rightarrow> Inl x
      | Inr d \<Rightarrow> (case to_dicts obs of Inl x \<Rightarrow> Inl x | Inr ds \<Rightarrow> Inr (d # ds)))"

text \<open>
  The state on objects: the list \<open>self.entries\<close>, each object held by value, and the
  files. The values of keyword arguments are JSON values, as the routes pass them.
\<close>

record store =
  objects :: "obj list"
  disk :: "string \<Rightarrow> content option"

text \<open>
  \<open>save\<close> on objects: \<open>open(DATA_FILE, "w")\<close> empties the file before the records are
  built, so an exception while building them leaves an empty file, which is not JSON.
\<close>

definition save_obj :: "store \<Rightarrow> store \<times> exn option" where
  "save_obj s =
     (case to_dicts (objects s) of
        Inl x \<Rightarrow> (s\<lparr>disk := (disk s)(DATA_FILE \<mapsto> Garbage)\<rparr>, Some x)
      | Inr ds \<Rightarrow> (s\<lparr>disk := (disk s)(DATA_FILE \<mapsto> Json (PList (map PDict ds)))\<rparr>, None))"

text \<open>
  The inner loop of \<open>update\<close>: the object as it stands when the loop ends, and the
  exception that ended it, if any.
\<close>

fun set_attrs_obj :: "env \<Rightarrow> obj \<Rightarrow> (string \<times> pyval) list \<Rightarrow> obj \<times> exn option" where
  "set_attrs_obj E ob [] = (ob, None)"
| "set_attrs_obj E ob ((k, v) # kws) =
     (if py_hasattr E ob k \<and> v \<noteq> PNone then
        (if k = ''amount'' then
           (case py_float E v of
              Inl x \<Rightarrow> (ob, Some x)
            | Inr a \<Rightarrow>
               (case py_setattr ob k (PNum a) of
                  Inl x \<Rightarrow> (ob, Some x)
                | Inr ob1 \<Rightarrow> set_attrs_obj E ob1 kws))
         else
           (case py_setattr ob k v of
              Inl x \<Rightarrow> (ob, Some x)
            | Inr ob1 \<Rightarrow> set_attrs_obj E ob1 kws))
      else set_attrs_obj E ob kws)"

text \<open>
  The outer loop of \<open>update\<close> on objects: the state the call leaves and what it returns
  or raises. Reading \<open>e.id\<close> of an object without that attribute raises.
\<close>

fun update_obj_loop ::
  "env \<Rightarrow> store \<Rightarrow> obj list \<Rightarrow> obj list \<Rightarrow> string \<Rightarrow> (string \<times> pyval) list
     \<Rightarrow> store \<times> (exn + obj option)" where
  "update_obj_loop E s pre [] entry_id kwargs = (s, Inr None)"
| "update_obj_loop E s pre (ob # rest) entry_id kwargs =
     (case map_of ob ''id'' of
        None \<Rightarrow> (s, Inl AttributeError)
      | Some i \<Rightarrow>
         (if i = PStr entry_id then
            (case set_attrs_obj E ob kwargs of
               (ob1, Some x) \<Rightarrow> (s\<lparr>objects := pre @ ob1 # rest\<rparr>, Inl x)
             | (ob1, None) \<Rightarrow>
                (case save_obj (s\<lparr>objects := pre @ ob1 # rest\<rparr>) of
                   (s1, Some x) \<Rightarrow> (s1, Inl x)
                 | (s1, None) \<Rightarrow> (s1, Inr (Some ob1))))
          else update_obj_loop E s (pre @ [ob]) rest entry_id kwargs))"

definition update_obj ::
  "env \<Rightarrow> store \<Rightarrow> string \<Rightarrow> (string \<times> pyval) list \<Rightarrow> store \<times> (exn + obj option)" where
  "update_obj E s entry_id kwargs = update_obj_loop E s [] (objects s) entry_id kwargs"

text \<open>The objects and files of a ledger of entries of the declared types.\<close>

definition obj_state :: "ledger \<Rightarrow> store" where
  "obj_state s = \<lparr>objects = map to_dict (entries s), disk = files s\<rparr>"

text \<open>The identifiers of the objects, in order (\<open>None\<close>: the object has no \<open>id\<close>).\<close>

definition ids :: "store \<Rightarrow> pyval option list" where
  "ids s = map (\<lambda>ob. map_of ob ''id'') (objects s)"

section \<open>Sequences of calls\<close>




text \<open>
  The records the data file holds: none when there is no file, the elements of the array
  when the file holds one.
\<close>

fun persisted :: "content option \<Rightarrow> pyval list option" where
  "persisted None = Some []"
| "persisted (Some (Json (PList ds))) = Some ds"
| "persisted (Some c) = None"

definition in_sync :: "ledger \<Rightarrow> bool" where
  "in_sync s = (persisted (files s DATA_FILE) = Some (map (\<lambda>e. PDict (to_dict e)) (entries s)))"

section \<open>Sample data\<close>

definition ascii_lower :: "string \<Rightarrow> string" where
  "ascii_lower t =
     map (\<lambda>c. if CHR ''A'' \<le> c \<and> c \<le> CHR ''Z'' then char_of (of_char c + (32::nat)) else c) t"

text \<open>The names \<open>hasattr\<close> finds on the class \<open>Entry\<close> (CPython 3.11).\<close>

definition object_attrs :: "string list" where
  "object_attrs =
     [''__class__'', ''__delattr__'', ''__dict__'', ''__dir__'', ''__doc__'', ''__eq__'',
      ''__format__'', ''__ge__'', ''__getattribute__'', ''__getstate__'', ''__gt__'',
      ''__hash__'', ''__init__'', ''__init_subclass__'', ''__le__'', ''__lt__'',
      ''__module__'', ''__ne__'', ''__new__'', ''__reduce__'', ''__reduce_ex__'',
      ''__repr__'', ''__setattr__'', ''__sizeof__'', ''__str__'', ''__subclasshook__'',
      ''__weakref__'', ''from_dict'', ''to_dict'']"

text \<open>
  A sample environment; the library functions are given on the values the samples use.
  Its standard output takes every message.
\<close>

definition E0 :: env where
  "E0 = \<lparr>now_date = ''2024-06-01'', new_uuid = ''6f1c2d3e'',
         str_to_float = (\<lambda>t. if t = ''12.5'' then Some 12.5 else None),
         int_to_float = of_int,
         lower = ascii_lower,
         str_of = (\<lambda>v. if v = PNum 100 then ''100.0'' else if v = PNum 40 then ''40.0''
                        else ''0.0''),
         class_attr = (\<lambda>k. k \<in> set object_attrs),
         print_error = None\<rparr>"

text \<open>
  The same with a standard output in an encoding without the letters of the message of
  \<open>load\<close> (ASCII, say): \<open>print\<close> raises \<open>UnicodeEncodeError\<close>.
\<close>

definition E_ascii :: env where
  "E_ascii = E0\<lparr>print_error := Some UnicodeEncodeError\<rparr>"

definition e_salary :: entry where
  "e_salary = \<lparr>id' = ''a1'', title = ''Salary'', amount = 100, category = ''Work'',
               kind = ''income'', note' = ''May'', date = ''2024-03-01''\<rparr>"

definition e_rent :: entry where
  "e_rent = \<lparr>id' = ''b2'', title = ''Rent'', amount = 40, category = ''Home'',
             kind = ''expense'', note' = [], date = ''2024-01-01''\<rparr>"

definition no_files :: "string \<Rightarrow> content option" where
  "no_files = (\<lambda>p. None)"

definition L1 :: ledger where
  "L1 = \<lparr>entries = [e_salary, e_rent], files = no_files\<rparr>"

definition e_undated :: entry where
  "e_undated = \<lparr>id' = ''c3'', title = ''Coffee'', amount = 0, category = ''Food'',
                kind = ''expense'', note' = [], date = []\<rparr>"

definition L2 :: ledger where
  "L2 = \<lparr>entries = [e_undated, e_salary], files = no_files\<rparr>"

definition e_feb :: entry where
  "e_feb = \<lparr>id' = ''d4'', title = ''Books'', amount = 0, category = ''Study'',
            kind = ''expense'', note' = [], date = ''2024-02-01''\<rparr>"

definition L3 :: ledger where
  "L3 = \<lparr>entries = [e_rent, e_salary, e_feb], files = no_files\<rparr>"


definition e_loaded :: entry where
  "e_loaded = \<lparr>id' = ''6f1c2d3e'', title = ''Rent'', amount = 0, category = [],
               kind = ''expense'', note' = [], date = ''2024-06-01''\<rparr>"


definition fs_garbage :: "string \<Rightarrow> content option" where
  "fs_garbage = no_files(DATA_FILE \<mapsto> Garbage)"

definition fs_two :: "string \<Rightarrow> content option" where
  "fs_two = no_files(DATA_FILE \<mapsto>
     Json (PList [PDict (to_dict e_salary), PDict [(''title'', PStr ''Rent'')]]))"

definition fs_huge :: "string \<Rightarrow> content option" where
  "fs_huge = no_files(DATA_FILE \<mapsto>
     Json (PList [PDict [(''title'', PStr ''Rent''), (''amount'', PInt (2 * 10 ^ 308))]]))"

definition e_memo :: entry where
  "e_memo = \<lparr>id' = ''e5'', title = ''Shop'', amount = 40, category = ''Food'',
             kind = ''expense'', note' = ''milk'' @ [LF] @ ''eggs'', date = ''2024-04-01''\<rparr>"

definition L5 :: ledger where
  "L5 = \<lparr>entries = [e_memo], files = no_files\<rparr>"

definition L6 :: ledger where
  "L6 = \<lparr>entries = [e_rent], files = no_files\<rparr>"

section \<open>Deleting\<close>

lemma entries_save: "entries (save s) = entries s"
  by (simp add: save_def)

lemma delete_eq:
  "delete s i =
     (if i \<in> set (map id' (entries s))
      then (save (s\<lparr>entries := filter (\<lambda>e. id' e \<noteq> i) (entries s)\<rparr>), True)
      else (s, False))"
proof (cases "i \<in> set (map id' (entries s))")
  case True
  then have "length (filter (\<lambda>e. id' e \<noteq> i) (entries s)) < length (entries s)"
    by (auto intro!: length_filter_less)
  with True show ?thesis by (simp add: delete_def Let_def)
next
  case False
  then have "filter (\<lambda>e. id' e \<noteq> i) (entries s) = entries s"
    by (auto simp: filter_id_conv)
  with False show ?thesis by (simp add: delete_def Let_def)
qed

text \<open>
  C10. \<open>delete\<close> removes every entry whose identifier is the given one, not only the
  first: the collection it leaves is the old one without all entries of that identifier,
  so the identifier no longer occurs in it, however often it occurred before.
\<close>

theorem delete_removes_every_match:
  "entries (fst (delete s entry_id)) = filter (\<lambda>e. id' e \<noteq> entry_id) (entries s)
   \<and> entry_id \<notin> set (map id' (entries (fst (delete s entry_id))))"
proof -
  have "entries (fst (delete s entry_id)) = filter (\<lambda>e. id' e \<noteq> entry_id) (entries s)"
    by (simp add: delete_def Let_def entries_save)
  then show ?thesis by auto
qed

text \<open>Two entries with one identifier, as a file with duplicates gives them: both go.\<close>

lemma delete_duplicates_example:
  "delete \<lparr>entries = [e_rent, e_salary, e_rent\<lparr>title := ''Flat''\<rparr>], files = no_files\<rparr> ''b2''
     = (save \<lparr>entries = [e_salary], files = no_files\<rparr>, True)"
  by (simp add: delete_def Let_def e_rent_def e_salary_def save_def)

text \<open>
  C5. For an identifier that no entry of the collection has, \<open>delete\<close> returns \<open>False\<close>
  and leaves the whole state as it was: the collection and every file, the data file
  among them. Nothing is saved unless an entry was removed.
\<close>

theorem delete_unknown:
  assumes "entry_id \<notin> set (map id' (entries s))"
  shows "delete s entry_id = (s, False)"
  using assms by (simp add: delete_eq)

theorem delete_unknown_witness:
  "''zz'' \<notin> set (map id' (entries L1)) \<and> delete L1 ''zz'' = (L1, False)"
proof -
  have h: "''zz'' \<notin> set (map id' (entries L1))"
    by (simp add: L1_def e_salary_def e_rent_def)
  from delete_unknown [OF h] h show ?thesis by simp
qed

section \<open>Totals\<close>

lemma foldl_plus: "foldl (+) a xs = a + sum_list (xs::real list)"
  by (induction xs arbitrary: a) simp_all

lemma py_sum_eq: "py_sum xs = sum_list xs"
  by (simp add: py_sum_def foldl_plus)

text \<open>
  C3. \<open>total_balance\<close> gives as income the sum of the amounts of the entries of kind
  \<open>income\<close>, as expense the sum of the amounts of the entries of kind \<open>expense\<close>, and as
  balance their difference. Entries of any other kind count for nothing: the result is
  that of the ledger without them. (Amounts are real numbers here.)
\<close>

theorem total_balance_sums:
  "total_balance s =
     [(''income'', (\<Sum>e\<leftarrow>filter (\<lambda>e. kind e = ''income'') (entries s). amount e)),
      (''expense'', (\<Sum>e\<leftarrow>filter (\<lambda>e. kind e = ''expense'') (entries s). amount e)),
      (''balance'', (\<Sum>e\<leftarrow>filter (\<lambda>e. kind e = ''income'') (entries s). amount e)
                    - (\<Sum>e\<leftarrow>filter (\<lambda>e. kind e = ''expense'') (entries s). amount e))]
   \<and> total_balance s =
       total_balance (s\<lparr>entries :=
         filter (\<lambda>e. kind e = ''income'' \<or> kind e = ''expense'') (entries s)\<rparr>)"
  by (simp add: total_balance_def Let_def py_sum_eq conj_commute cong: conj_cong)

text \<open>The example of the specification: income 100 and expense 40 leave a balance of 60.\<close>

lemma total_balance_example:
  "total_balance L1 = [(''income'', 100), (''expense'', 40), (''balance'', 60)]"
  by (simp add: total_balance_def L1_def e_salary_def e_rent_def py_sum_def)

section \<open>Searching\<close>

lemma startswith_iff: "startswith s kw \<longleftrightarrow> prefix kw s"
  by (induction s kw rule: startswith.induct) auto

lemma str_in_iff: "str_in kw s \<longleftrightarrow> sublist kw s"
  by (induction s) (auto simp: startswith_iff sublist_Cons_right)

text \<open>
  C4. \<open>search\<close> returns, in the order of the collection, exactly the entries for which the
  lower-cased keyword is a contiguous part of the lower-cased title, category or note.
  As the lower-cased empty string is empty, the empty keyword returns every entry.
\<close>

theorem search_substring:
  "search E s keyword =
     filter (\<lambda>e. sublist (lower E keyword) (lower E (title e))
               \<or> sublist (lower E keyword) (lower E (category e))
               \<or> sublist (lower E keyword) (lower E (note' e))) (entries s)
   \<and> (lower E [] = [] \<longrightarrow> search E s [] = entries s)"
  by (simp add: search_def Let_def str_in_iff)

theorem search_substring_witness:
  "lower E0 [] = [] \<and> search E0 L1 [] = entries L1 \<and> search E0 L1 ''REN'' = [e_rent]"
proof -
  have h: "lower E0 [] = []" by (simp add: E0_def ascii_lower_def)
  have "search E0 L1 [] = entries L1"
    using search_substring [of E0 L1 "[]"] h by blast
  moreover have "search E0 L1 ''REN'' = [e_rent]"
    by (simp add: search_def E0_def L1_def e_salary_def e_rent_def Let_def) code_simp
  ultimately show ?thesis using h by simp
qed

section \<open>Listing\<close>

lemma insort_key_after_smaller:
  "\<forall>a\<in>set as. f a < f x \<Longrightarrow> insort_key f x (as @ bs) = as @ insort_key f x bs"
  by (induction as) auto

lemma sort_key_empty_first:
  fixes f :: "'a \<Rightarrow> string"
  shows "sort_key f xs = filter (\<lambda>x. f x = []) xs @ sort_key f (filter (\<lambda>x. f x \<noteq> []) xs)"
proof (induction xs)
  case Nil
  then show ?case by simp
next
  case (Cons x xs)
  show ?case
  proof (cases "f x = []")
    case True
    then have "insort_key f x (sort_key f xs) = x # sort_key f xs"
      by (intro insort_is_Cons) simp
    with True Cons show ?thesis by simp
  next
    case False
    then have "\<forall>a\<in>set (filter (\<lambda>x. f x = []) xs). f a < f x"
      by (cases "f x") auto
    then have "insort_key f x (sort_key f xs)
        = filter (\<lambda>x. f x = []) xs @ insort_key f x (sort_key f (filter (\<lambda>x. f x \<noteq> []) xs))"
      by (subst Cons.IH) (rule insort_key_after_smaller)
    with False show ?thesis by simp
  qed
qed

lemma sorted_reverse_empty_last:
  fixes f :: "'a \<Rightarrow> string"
  shows "sorted_reverse f xs
     = sorted_reverse f (filter (\<lambda>x. f x \<noteq> []) xs) @ filter (\<lambda>x. f x = []) xs"
  unfolding sorted_reverse_def
  by (subst sort_key_empty_first) (simp add: rev_filter)

lemma str_or_empty: "str_or a [] = a"
  by (simp add: str_or_def)

lemma list_all_key: "list_all' s = sorted_reverse date (entries s)"
  by (simp add: list_all'_def str_or_empty)

text \<open>
  C2, as the code has it. \<open>list_all\<close> returns all entries (each as often as the collection
  holds it), in descending order of the date strings under lexicographic comparison. An
  entry with the empty date has the lowest key and therefore comes last, after all dated
  entries: the listing is the listing of the dated entries followed by the undated ones.
\<close>

theorem list_all_descending:
  "mset (list_all' s) = mset (entries s)
   \<and> sorted (rev (map date (list_all' s)))
   \<and> list_all' s = list_all' (s\<lparr>entries := filter (\<lambda>e. date e \<noteq> []) (entries s)\<rparr>)
                    @ filter (\<lambda>e. date e = []) (entries s)"
proof -
  have "mset (list_all' s) = mset (entries s)"
    by (simp add: list_all_key sorted_reverse_def)
  moreover have "sorted (rev (map date (list_all' s)))"
    by (simp add: list_all_key sorted_reverse_def rev_map [symmetric])
  moreover have "list_all' s = list_all' (s\<lparr>entries := filter (\<lambda>e. date e \<noteq> []) (entries s)\<rparr>)
                    @ filter (\<lambda>e. date e = []) (entries s)"
    unfolding list_all_key by (simp add: sorted_reverse_empty_last [symmetric])
  ultimately show ?thesis by simp
qed

text \<open>
  C2 as stated fails: of an undated and a dated entry, the dated one is listed first.
\<close>

theorem list_all_undated_last:
  "date e_undated = [] \<and> date e_salary \<noteq> [] \<and> entries L2 = [e_undated, e_salary]
   \<and> list_all' L2 = [e_salary, e_undated]"
  by (simp add: list_all'_def sorted_reverse_def str_or_def L2_def e_undated_def e_salary_def)

text \<open>Entries of one date keep the order they have in the collection.\<close>

lemma list_all_stable:
  "filter (\<lambda>e. date e = k) (list_all' s) = filter (\<lambda>e. date e = k) (entries s)"
  by (simp add: list_all_key sorted_reverse_def rev_filter [symmetric] sort_key_stable)

text \<open>The example of the specification.\<close>

lemma list_all_example:
  "map date (entries L3) = [''2024-01-01'', ''2024-03-01'', ''2024-02-01'']
   \<and> map date (list_all' L3) = [''2024-03-01'', ''2024-02-01'', ''2024-01-01'']"
  by (simp add: list_all'_def sorted_reverse_def str_or_def L3_def e_rent_def e_salary_def
      e_feb_def)

section \<open>Records of entries\<close>

lemma dict_get_to_dict:
  "dict_get (to_dict e) ''id'' x = PStr (id' e)"
  "dict_get (to_dict e) ''title'' x = PStr (title e)"
  "dict_get (to_dict e) ''amount'' x = PNum (amount e)"
  "dict_get (to_dict e) ''category'' x = PStr (category e)"
  "dict_get (to_dict e) ''kind'' x = PStr (kind e)"
  "dict_get (to_dict e) ''note'' x = PStr (note' e)"
  "dict_get (to_dict e) ''date'' x = PStr (date e)"
  by (simp_all add: dict_get_def to_dict_def)

text \<open>What the round trip gives for any entry: the constructor fills in an empty identifier and an empty date.\<close>

lemma from_dict_to_dict_eq:
  "from_dict E (to_dict e) =
     Returns (e\<lparr>id' := if id' e = [] then new_uuid E else id' e,
               date := if date e = [] then now_date E else date e\<rparr>)"
  by (simp add: from_dict_def dict_get_to_dict Entry_init_def py_or_def)

text \<open>
  C1, as the code has it. For an entry whose identifier and date are not empty,
  \<open>from_dict (to_dict e)\<close> returns an entry with the same identifier, title, amount,
  category, kind, note and date.
\<close>

theorem from_dict_to_dict:
  assumes "id' e \<noteq> []" and "date e \<noteq> []"
  shows "from_dict E (to_dict e) = Returns e"
  using assms by (simp add: from_dict_to_dict_eq)

theorem from_dict_to_dict_witness:
  "id' e_salary \<noteq> [] \<and> date e_salary \<noteq> [] \<and> from_dict E0 (to_dict e_salary) = Returns e_salary"
proof -
  have h1: "id' e_salary \<noteq> []" and h2: "date e_salary \<noteq> []"
    by (simp_all add: e_salary_def)
  from from_dict_to_dict [OF h1 h2] h1 h2 show ?thesis by simp
qed

text \<open>
  C1 as stated fails for an entry with the empty date, which \<open>update\<close> leaves when it is
  given the empty string as date: the constructor called by \<open>from_dict\<close> replaces the
  empty date by the current one. (An empty identifier is replaced in the same way.)
\<close>

theorem from_dict_to_dict_undated:
  "date e_undated = [] \<and> date e_feb = ''2024-02-01''
   \<and> from_dict E0 (to_dict e_undated) = Returns (e_undated\<lparr>date := ''2024-06-01''\<rparr>)
   \<and> from_dict E0 (to_dict e_undated) \<noteq> Returns e_undated"
  by (simp add: from_dict_to_dict_eq e_undated_def E0_def e_feb_def)

text \<open>How an entry comes to have the empty date: \<open>update\<close> is given the empty string for it.\<close>

lemma undated_by_update:
  "update E0 \<lparr>entries = [e_undated\<lparr>date := ''2024-05-05''\<rparr>], files = no_files\<rparr> ''c3''
       [(''date'', PStr [])]
     = Update_returns (save \<lparr>entries = [e_undated], files = no_files\<rparr>) (Some e_undated)"
  by (simp add: update_def e_undated_def str_fields_def set_str_def)

section \<open>Updating\<close>

lemma map_of_dict_set: "map_of (dict_set ob k v) = (map_of ob)(k \<mapsto> v)"
  by (induction ob) auto

lemma py_setattr_id:
  assumes "k \<noteq> ''id''" and "k \<noteq> ''__dict__''" and "py_setattr ob k v = Inr ob1"
  shows "map_of ob1 ''id'' = map_of ob ''id''"
  using assms by (auto simp: py_setattr_def map_of_dict_set split: if_splits)

lemma set_attrs_obj_id:
  assumes "filter (\<lambda>kv. (fst kv = ''id'' \<or> fst kv = ''__dict__'') \<and> snd kv \<noteq> PNone) kws = []"
  shows "map_of (fst (set_attrs_obj E ob kws)) ''id'' = map_of ob ''id''"
  using assms
proof (induction kws arbitrary: ob)
  case Nil
  then show ?case by simp
next
  case (Cons kv kws)
  obtain k v where kv: "kv = (k, v)" by (cases kv)
  from Cons.prems kv
  have rest: "filter (\<lambda>kv. (fst kv = ''id'' \<or> fst kv = ''__dict__'') \<and> snd kv \<noteq> PNone) kws = []"
    and here: "v = PNone \<or> (k \<noteq> ''id'' \<and> k \<noteq> ''__dict__'')"
    by (auto split: if_splits)
  note IH = Cons.IH [OF rest]
  show ?case
  proof (cases "py_hasattr E ob k \<and> v \<noteq> PNone")
    case False
    then show ?thesis unfolding kv using IH by auto
  next
    case True
    with here have k: "k \<noteq> ''id''" "k \<noteq> ''__dict__''" by auto
    show ?thesis
    proof (cases "k = ''amount''")
      case True
      show ?thesis
      proof (cases "py_float E v")
        case (Inl x)
        with True \<open>py_hasattr E ob k \<and> v \<noteq> PNone\<close> show ?thesis unfolding kv by simp
      next
        case (Inr a)
        show ?thesis
        proof (cases "py_setattr ob k (PNum a)")
          case (Inl x)
          with Inr True \<open>py_hasattr E ob k \<and> v \<noteq> PNone\<close> show ?thesis unfolding kv by simp
        next
          case (Inr ob1)
          from py_setattr_id [OF k this] IH [of ob1] Inr \<open>py_float E v = Inr a\<close> True
            \<open>py_hasattr E ob k \<and> v \<noteq> PNone\<close>
          show ?thesis unfolding kv by simp
        qed
      qed
    next
      case False
      show ?thesis
      proof (cases "py_setattr ob k v")
        case (Inl x)
        with False \<open>py_hasattr E ob k \<and> v \<noteq> PNone\<close> show ?thesis unfolding kv by simp
      next
        case (Inr ob1)
        from py_setattr_id [OF k this] IH [of ob1] Inr False \<open>py_hasattr E ob k \<and> v \<noteq> PNone\<close>
        show ?thesis unfolding kv by simp
      qed
    qed
  qed
qed

lemma objects_save_obj: "objects (fst (save_obj s)) = objects s"
  by (simp add: save_obj_def split: sum.splits)

lemma update_obj_loop_ids:
  assumes "filter (\<lambda>kv. (fst kv = ''id'' \<or> fst kv = ''__dict__'') \<and> snd kv \<noteq> PNone) kws = []"
    and "objects s = pre @ rest"
  shows "ids (fst (update_obj_loop E s pre rest i kws)) = ids s"
  using assms(2)
proof (induction rest arbitrary: pre)
  case Nil
  then show ?case by simp
next
  case (Cons ob rest)
  show ?case
  proof (cases "map_of ob ''id''")
    case None
    then show ?thesis by simp
  next
    case (Some j)
    show ?thesis
    proof (cases "j = PStr i")
      case False
      from Cons.prems have "objects s = (pre @ [ob]) @ rest" by simp
      from Cons.IH [OF this] Some False show ?thesis by simp
    next
      case True
      obtain ob1 r where sa: "set_attrs_obj E ob kws = (ob1, r)"
        by (cases "set_attrs_obj E ob kws")
      with set_attrs_obj_id [OF assms(1), of E ob] have same: "map_of ob1 ''id'' = map_of ob ''id''"
        by simp
      have "ids (fst (save_obj (s\<lparr>objects := pre @ ob1 # rest\<rparr>))) = ids s"
        using same Cons.prems by (simp add: ids_def objects_save_obj)
      moreover have "ids (s\<lparr>objects := pre @ ob1 # rest\<rparr>) = ids s"
        using same Cons.prems by (simp add: ids_def)
      ultimately show ?thesis
        using Some True sa by (auto split: option.splits prod.splits)
    qed
  qed
qed

text \<open>
  C7, as the code has it. An \<open>update\<close> call whose fields give neither \<open>id\<close> nor
  \<open>__dict__\<close> (or give \<open>None\<close> for them) leaves the identifier of every entry of the
  collection as it was, whatever the other fields and the types of their values, and
  whether the call returns or raises.
\<close>

theorem update_obj_keeps_ids:
  assumes "filter (\<lambda>kv. (fst kv = ''id'' \<or> fst kv = ''__dict__'') \<and> snd kv \<noteq> PNone) kwargs = []"
  shows "ids (fst (update_obj E s entry_id kwargs)) = ids s"
  unfolding update_obj_def using assms by (intro update_obj_loop_ids) simp_all

theorem update_obj_keeps_ids_witness:
  "filter (\<lambda>kv. (fst kv = ''id'' \<or> fst kv = ''__dict__'') \<and> snd kv \<noteq> PNone)
      [(''title'', PInt 5), (''id'', PNone), (''amount'', PStr ''12.5''), (''__doc__'', PStr ''x'')]
     = []
   \<and> ids (fst (update_obj E0 (obj_state L1) ''a1''
        [(''title'', PInt 5), (''id'', PNone), (''amount'', PStr ''12.5''),
         (''__doc__'', PStr ''x'')]))
     = ids (obj_state L1)
   \<and> ids (obj_state L1) = [Some (PStr ''a1''), Some (PStr ''b2'')]
   \<and> objects (fst (update_obj E0 (obj_state L1) ''a1''
        [(''title'', PInt 5), (''id'', PNone), (''amount'', PStr ''12.5''),
         (''__doc__'', PStr ''x'')]))
     = [[(''id'', PStr ''a1''), (''title'', PInt 5), (''amount'', PNum 12.5),
         (''category'', PStr ''Work''), (''kind'', PStr ''income''), (''note'', PStr ''May''),
         (''date'', PStr ''2024-03-01''), (''__doc__'', PStr ''x'')],
        to_dict e_rent]"
proof -
  have h: "filter (\<lambda>kv. (fst kv = ''id'' \<or> fst kv = ''__dict__'') \<and> snd kv \<noteq> PNone)
      [(''title'', PInt 5), (''id'', PNone), (''amount'', PStr ''12.5''), (''__doc__'', PStr ''x'')]
     = []"
    by simp
  have a: "ids (obj_state L1) = [Some (PStr ''a1''), Some (PStr ''b2'')]"
    by (simp add: ids_def obj_state_def L1_def to_dict_def e_salary_def e_rent_def)
  have b: "objects (fst (update_obj E0 (obj_state L1) ''a1''
        [(''title'', PInt 5), (''id'', PNone), (''amount'', PStr ''12.5''),
         (''__doc__'', PStr ''x'')]))
     = [[(''id'', PStr ''a1''), (''title'', PInt 5), (''amount'', PNum 12.5),
         (''category'', PStr ''Work''), (''kind'', PStr ''income''), (''note'', PStr ''May''),
         (''date'', PStr ''2024-03-01''), (''__doc__'', PStr ''x'')],
        to_dict e_rent]"
    by (simp add: update_obj_def obj_state_def L1_def to_dict_def e_salary_def e_rent_def
        py_hasattr_def py_setattr_def E0_def object_attrs_def save_obj_def to_dict_obj_def
        field_names_def)
  from update_obj_keeps_ids [OF h, of E0 "obj_state L1" "''a1''"] h a b show ?thesis
    by simp
qed

text \<open>
  C7 as stated fails: \<open>id\<close> is an attribute like the others, and \<open>update\<close> with the field
  \<open>id\<close> rebinds it. Here the first entry takes the identifier of the second.
\<close>

theorem update_obj_changes_id:
  "ids (obj_state L1) = [Some (PStr ''a1''), Some (PStr ''b2'')]
   \<and> ids (fst (update_obj E0 (obj_state L1) ''a1'' [(''id'', PStr ''b2'')]))
       = [Some (PStr ''b2''), Some (PStr ''b2'')]
   \<and> snd (update_obj E0 (obj_state L1) ''a1'' [(''id'', PStr ''b2'')])
       = Inr (Some (to_dict (e_salary\<lparr>id' := ''b2''\<rparr>)))"
  by (simp add: ids_def update_obj_def obj_state_def L1_def to_dict_def e_salary_def e_rent_def
      py_hasattr_def py_setattr_def to_dict_obj_def field_names_def save_obj_def)

text \<open>
  The field \<open>__dict__\<close> replaces all attributes of the matched entry at once, the
  identifier among them; the save that follows then finds no title and raises, leaving
  an empty data file.
\<close>

lemma update_obj_dict:
  "update_obj E0 (obj_state L1) ''a1'' [(''__dict__'', PDict [(''id'', PStr ''zz'')])]
     = (\<lparr>objects = [[(''id'', PStr ''zz'')], to_dict e_rent],
         disk = no_files(DATA_FILE \<mapsto> Garbage)\<rparr>, Inl AttributeError)"
  by (simp add: update_obj_def obj_state_def L1_def to_dict_def e_salary_def e_rent_def
      py_hasattr_def py_setattr_def to_dict_obj_def field_names_def save_obj_def E0_def
      object_attrs_def)

subsection \<open>Entries of the declared types\<close>

text \<open>
  On entries of the declared types, and as long as the call stays within them, \<open>update\<close>
  on entries is \<open>update\<close> on their objects.
\<close>

lemma fst_to_dict: "map fst (to_dict e) = field_names"
  by (simp add: to_dict_def field_names_def)

lemma dict_set_to_dict_str:
  "k \<in> set str_fields \<Longrightarrow> dict_set (to_dict e) k (PStr t) = to_dict (set_str e k t)"
  by (auto simp: str_fields_def to_dict_def set_str_def)

lemma dict_set_to_dict_amount:
  "dict_set (to_dict e) ''amount'' (PNum a) = to_dict (e\<lparr>amount := a\<rparr>)"
  by (simp add: to_dict_def)

lemma set_attrs_obj_typed:
  assumes "snd (set_attrs E e kws) \<noteq> Left_types"
  shows "set_attrs_obj E (to_dict e) kws =
           (to_dict (fst (set_attrs E e kws)),
            case snd (set_attrs E e kws) of Raised x \<Rightarrow> Some x | _ \<Rightarrow> None)"
  using assms
proof (induction kws arbitrary: e)
  case Nil
  then show ?case by simp
next
  case (Cons kv kws)
  obtain k v where kv: "kv = (k, v)" by (cases kv)
  show ?case
  proof (cases "v = PNone")
    case True
    with Cons show ?thesis unfolding kv by simp
  next
    case False
    note v = this
    show ?thesis
    proof (cases "k = ''amount''")
      case True
      then have has: "py_hasattr E (to_dict e) k"
        by (simp add: py_hasattr_def fst_to_dict field_names_def)
      show ?thesis
      proof (cases "py_float E v")
        case (Inl x)
        with True v has show ?thesis unfolding kv by simp
      next
        case (Inr a)
        with Cons.prems True v have "snd (set_attrs E (e\<lparr>amount := a\<rparr>) kws) \<noteq> Left_types"
          unfolding kv by simp
        from Cons.IH [OF this] Inr True v has show ?thesis
          unfolding kv by (simp add: py_setattr_def dict_set_to_dict_amount)
      qed
    next
      case False
      note not_amount = this
      show ?thesis
      proof (cases "k \<in> set str_fields")
        case True
        then have has: "py_hasattr E (to_dict e) k"
          by (auto simp: py_hasattr_def fst_to_dict field_names_def str_fields_def)
        from True have special: "k \<noteq> ''__dict__''" "k \<noteq> ''__class__''" "k \<noteq> ''__weakref__''"
          by (auto simp: str_fields_def)
        from Cons.prems True not_amount v obtain t where t: "v = PStr t"
          unfolding kv by (cases v) auto
        with Cons.prems True not_amount
        have "snd (set_attrs E (set_str e k t) kws) \<noteq> Left_types"
          unfolding kv by simp
        from Cons.IH [OF this] t True not_amount has special show ?thesis
          unfolding kv by (simp add: py_setattr_def dict_set_to_dict_str)
      next
        case False
        with Cons.prems not_amount v have no_class: "\<not> class_attr E k"
          unfolding kv by auto
        from False not_amount have "k \<notin> set field_names"
          by (auto simp: field_names_def str_fields_def)
        with no_class have "\<not> py_hasattr E (to_dict e) k"
          by (simp add: py_hasattr_def fst_to_dict)
        moreover from Cons.prems False not_amount v no_class
        have "snd (set_attrs E e kws) \<noteq> Left_types"
          unfolding kv by simp
        ultimately show ?thesis
          using Cons.IH [of e] False not_amount v no_class unfolding kv by simp
      qed
    qed
  qed
qed

lemma to_dict_obj_to_dict: "to_dict_obj (to_dict e) = Inr (to_dict e)"
  by (simp add: to_dict_obj_def to_dict_def field_names_def)

lemma to_dicts_to_dict: "to_dicts (map to_dict es) = Inr (map to_dict es)"
  by (induction es) (simp_all add: to_dict_obj_to_dict)

lemma save_obj_typed: "save_obj (obj_state s) = (obj_state (save s), None)"
  by (simp add: save_obj_def obj_state_def to_dicts_to_dict save_def o_def)

lemma obj_state_entries:
  "(obj_state s)\<lparr>objects := map to_dict es\<rparr> = obj_state (s\<lparr>entries := es\<rparr>)"
  by (simp add: obj_state_def)

lemma update_obj_loop_returns:
  "update_loop E s pre rest i kws = Update_returns s1 r \<Longrightarrow>
     update_obj_loop E (obj_state s) (map to_dict pre) (map to_dict rest) i kws
       = (obj_state s1, Inr (map_option to_dict r))"
proof (induction rest arbitrary: pre)
  case Nil
  then show ?case by simp
next
  case (Cons e rest)
  have idk: "map_of (to_dict e) ''id'' = Some (PStr (id' e))"
    by (simp add: to_dict_def)
  show ?case
  proof (cases "id' e = i")
    case True
    obtain e1 l where sa: "set_attrs E e kws = (e1, l)" by (cases "set_attrs E e kws")
    with Cons.prems True have l: "l = Finished"
      and s1: "s1 = save (s\<lparr>entries := pre @ e1 # rest\<rparr>)" and r: "r = Some e1"
      by (cases l; simp)+
    from set_attrs_obj_typed [of E e kws] sa l
    have "set_attrs_obj E (to_dict e) kws = (to_dict e1, None)" by simp
    moreover have "(obj_state s)\<lparr>objects := map to_dict pre @ to_dict e1 # map to_dict rest\<rparr>
        = obj_state (s\<lparr>entries := pre @ e1 # rest\<rparr>)"
      using obj_state_entries [where s = s and es = "pre @ e1 # rest"] by simp
    ultimately show ?thesis
      using True idk s1 r by (simp add: save_obj_typed)
  next
    case False
    with Cons.prems have "update_loop E s (pre @ [e]) rest i kws = Update_returns s1 r" by simp
    from Cons.IH [OF this] False idk show ?thesis by simp
  qed
qed

lemma update_obj_loop_raises:
  "update_loop E s pre rest i kws = Update_raises s1 x \<Longrightarrow>
     update_obj_loop E (obj_state s) (map to_dict pre) (map to_dict rest) i kws
       = (obj_state s1, Inl x)"
proof (induction rest arbitrary: pre)
  case Nil
  then show ?case by simp
next
  case (Cons e rest)
  have idk: "map_of (to_dict e) ''id'' = Some (PStr (id' e))"
    by (simp add: to_dict_def)
  show ?case
  proof (cases "id' e = i")
    case True
    obtain e1 l where sa: "set_attrs E e kws = (e1, l)" by (cases "set_attrs E e kws")
    with Cons.prems True have l: "l = Raised x"
      and s1: "s1 = s\<lparr>entries := pre @ e1 # rest\<rparr>"
      by (cases l; simp)+
    from set_attrs_obj_typed [of E e kws] sa l
    have "set_attrs_obj E (to_dict e) kws = (to_dict e1, Some x)" by simp
    moreover have "(obj_state s)\<lparr>objects := map to_dict pre @ to_dict e1 # map to_dict rest\<rparr>
        = obj_state (s\<lparr>entries := pre @ e1 # rest\<rparr>)"
      using obj_state_entries [where s = s and es = "pre @ e1 # rest"] by simp
    ultimately show ?thesis
      using True idk s1 by simp
  next
    case False
    with Cons.prems have "update_loop E s (pre @ [e]) rest i kws = Update_raises s1 x" by simp
    from Cons.IH [OF this] False idk show ?thesis by simp
  qed
qed

lemma update_obj_typed:
  "update E s i kws = Update_returns s1 r \<Longrightarrow>
     update_obj E (obj_state s) i kws = (obj_state s1, Inr (map_option to_dict r))"
  "update E s i kws = Update_raises s1 x \<Longrightarrow>
     update_obj E (obj_state s) i kws = (obj_state s1, Inl x)"
  using update_obj_loop_returns [where pre = "[]" and rest = "entries s"]
    update_obj_loop_raises [where pre = "[]" and rest = "entries s"]
  by (simp_all add: update_def update_obj_def obj_state_def)

text \<open>The same call as in \<open>update_obj_changes_id\<close>, on the entries.\<close>

lemma update_changes_id:
  "update E0 L1 ''a1'' [(''id'', PStr ''b2'')]
     = Update_returns (save (L1\<lparr>entries := [e_salary\<lparr>id' := ''b2''\<rparr>, e_rent]\<rparr>))
         (Some (e_salary\<lparr>id' := ''b2''\<rparr>))"
  by (simp add: update_def L1_def e_salary_def e_rent_def E0_def str_fields_def set_str_def)

section \<open>Loading\<close>

lemma from_items_Returns_iff:
  "from_items Es n ds = Returns es \<longleftrightarrow>
     length es = length ds \<and> (\<forall>i<length ds. from_item (Es (n + i)) (ds ! i) = Returns (es ! i))"
proof (induction ds arbitrary: n es)
  case Nil
  then show ?case by auto
next
  case (Cons d ds)
  show ?case
  proof (cases es)
    case Nil
    then show ?thesis
      by (auto split: outcome.splits)
  next
    case (Cons e es')
    have "from_items Es n (d # ds) = Returns (e # es') \<longleftrightarrow>
            from_item (Es n) d = Returns e \<and> from_items Es (Suc n) ds = Returns es'"
      by (auto split: outcome.splits)
    also have "\<dots> \<longleftrightarrow> from_item (Es n) d = Returns e \<and> length es' = length ds
        \<and> (\<forall>i<length ds. from_item (Es (Suc n + i)) (ds ! i) = Returns (es' ! i))"
      by (simp add: Cons.IH)
    also have "\<dots> \<longleftrightarrow> length (e # es') = length (d # ds)
        \<and> (\<forall>i<length (d # ds). from_item (Es (n + i)) ((d # ds) ! i) = Returns ((e # es') ! i))"
      by (auto simp: All_less_Suc2)
    finally show ?thesis using Cons by simp
  qed
qed

lemma from_items_Raises_iff:
  "(\<exists>x. from_items Es n ds = Raises x) \<longleftrightarrow>
     (\<exists>i<length ds. \<exists>x. from_item (Es (n + i)) (ds ! i) = Raises x)"
proof (induction ds arbitrary: n)
  case Nil
  then show ?case by simp
next
  case (Cons d ds)
  have "(\<exists>x. from_items Es n (d # ds) = Raises x) \<longleftrightarrow>
          (\<exists>x. from_item (Es n) d = Raises x) \<or> (\<exists>x. from_items Es (Suc n) ds = Raises x)"
    by (auto split: outcome.splits)
  also have "\<dots> \<longleftrightarrow> (\<exists>x. from_item (Es n) d = Raises x)
      \<or> (\<exists>i<length ds. \<exists>x. from_item (Es (Suc n + i)) (ds ! i) = Raises x)"
    by (simp add: Cons.IH)
  also have "\<dots> \<longleftrightarrow> (\<exists>i<length (d # ds). \<exists>x. from_item (Es (n + i)) ((d # ds) ! i) = Raises x)"
    by (simp add: Ex_less_Suc2)
  finally show ?case .
qed

lemma from_items_Returns_map:
  "from_items Es n ds = Returns es \<longleftrightarrow>
     map (\<lambda>(i, d). from_item (Es i) d) (enumerate n ds) = map Returns es"
proof (induction ds arbitrary: n es)
  case Nil
  then show ?case by auto
next
  case (Cons d ds)
  show ?case
  proof (cases es)
    case Nil
    then show ?thesis by (auto split: outcome.splits)
  next
    case (Cons e es')
    have "from_items Es n (d # ds) = Returns (e # es') \<longleftrightarrow>
            from_item (Es n) d = Returns e \<and> from_items Es (Suc n) ds = Returns es'"
      by (auto split: outcome.splits)
    with Cons Cons.IH [of "Suc n" es'] show ?thesis by simp
  qed
qed

lemma Ledger_init_array:
  assumes "fs DATA_FILE = Some (Json (PList ds))"
    and "map (\<lambda>(i, d). from_item (Es i) d) (enumerate 0 ds) = map Returns es"
  shows "Ledger_init Es fs = Returns \<lparr>entries = es, files = fs\<rparr>"
proof -
  from assms(2) have "from_items Es 0 ds = Returns es"
    by (simp only: from_items_Returns_map)
  with assms(1) show ?thesis
    by (simp add: Ledger_init_def load_def read_entries_def)
qed

text \<open>
  What the constructor does. With no data file the collection is empty. With a data
  file on which the body of the \<open>try\<close> block raises, the collection is empty when the
  message of the \<open>except\<close> branch is printed, and the constructor raises what \<open>print\<close>
  raises otherwise. With a data file that holds an array of records from each of which
  \<open>from_dict\<close> returns an entry, the collection is the list of these entries, in the
  order of the array.
\<close>

lemma Ledger_init_cases:
  "(fs DATA_FILE = None \<longrightarrow> Ledger_init Es fs = Returns \<lparr>entries = [], files = fs\<rparr>)
   \<and> (fs DATA_FILE = Some c \<and> read_entries Es c = Raises x \<and> print_error (Es 0) = None
        \<longrightarrow> Ledger_init Es fs = Returns \<lparr>entries = [], files = fs\<rparr>)
   \<and> (fs DATA_FILE = Some c \<and> read_entries Es c = Raises x \<and> print_error (Es 0) = Some y
        \<longrightarrow> Ledger_init Es fs = Raises y)
   \<and> (fs DATA_FILE = Some (Json (PList ds))
        \<and> map (\<lambda>(i, d). from_item (Es i) d) (enumerate 0 ds) = map Returns es
        \<longrightarrow> Ledger_init Es fs = Returns \<lparr>entries = es, files = fs\<rparr>)"
proof -
  have absent: "fs DATA_FILE = None \<longrightarrow> Ledger_init Es fs = Returns \<lparr>entries = [], files = fs\<rparr>"
    by (simp add: Ledger_init_def load_def)
  have fails: "fs DATA_FILE = Some c \<and> read_entries Es c = Raises x \<and> print_error (Es 0) = None
        \<longrightarrow> Ledger_init Es fs = Returns \<lparr>entries = [], files = fs\<rparr>"
    by (simp add: Ledger_init_def load_def)
  have fatal: "fs DATA_FILE = Some c \<and> read_entries Es c = Raises x \<and> print_error (Es 0) = Some y
        \<longrightarrow> Ledger_init Es fs = Raises y"
    by (simp add: Ledger_init_def load_def)
  have reads: "fs DATA_FILE = Some (Json (PList ds))
        \<and> map (\<lambda>(i, d). from_item (Es i) d) (enumerate 0 ds) = map Returns es
        \<longrightarrow> Ledger_init Es fs = Returns \<lparr>entries = es, files = fs\<rparr>"
    by (auto simp: Ledger_init_array)
  from absent fails fatal reads show ?thesis by blast
qed

text \<open>
  C8. The code attempts what the claim says: the \<open>except\<close> branch ends with
  \<open>self.entries = []\<close>, as the branch for a missing file does. It misses it where the
  standard output cannot take the message printed before that assignment: on a data file
  that is not JSON, \<open>print\<close> raises \<open>UnicodeEncodeError\<close> inside the handler and the
  construction of the ledger fails, while the same file gives the empty collection where
  the message is printed, and a missing file gives it in both environments.
\<close>

theorem Ledger_init_print_raises:
  "fs_garbage DATA_FILE = Some Garbage
   \<and> print_error E_ascii = Some UnicodeEncodeError
   \<and> Ledger_init (\<lambda>n. E_ascii) fs_garbage = Raises UnicodeEncodeError
   \<and> Ledger_init (\<lambda>n. E0) fs_garbage = Returns \<lparr>entries = [], files = fs_garbage\<rparr>
   \<and> Ledger_init (\<lambda>n. E_ascii) no_files = Returns \<lparr>entries = [], files = no_files\<rparr>"
  by (simp add: Ledger_init_def load_def read_entries_def fs_garbage_def no_files_def
      E_ascii_def E0_def)

text \<open>When the body of the \<open>try\<close> block raises.\<close>

lemma read_entries_Raises_iff:
  "(\<exists>x. read_entries Es c = Raises x) \<longleftrightarrow>
     (case c of
        Json v \<Rightarrow> (case py_iter v of
                     Inl x \<Rightarrow> True
                   | Inr ds \<Rightarrow> (\<exists>i<length ds. \<exists>x. from_item (Es i) (ds ! i) = Raises x))
      | Csv t \<Rightarrow> True
      | Garbage \<Rightarrow> True)"
  using from_items_Raises_iff [of Es 0]
  by (auto simp: read_entries_def split: content.splits sum.splits)

lemma from_item_Raises_iff:
  "(\<exists>x. from_item E v = Raises x) \<longleftrightarrow>
     (case v of PDict d \<Rightarrow> (\<exists>x. py_float E (dict_get d ''amount'' (PInt 0)) = Inl x) | _ \<Rightarrow> True)"
  by (auto simp: from_dict_def Entry_init_def split: pyval.splits sum.splits option.splits)

text \<open>
  Samples: no file, a file that is not JSON, an array of a full record and a record with
  a title only, and a record whose amount is an integer too large for \<open>float\<close>.
\<close>

lemma float_limit_pos: "\<not> float_limit \<le> 0" "0 \<le> exact_limit"
  by (simp_all add: float_limit_def exact_limit_def)

lemma Ledger_init_samples:
  "Ledger_init (\<lambda>n. E0) no_files = Returns \<lparr>entries = [], files = no_files\<rparr>"
  "Ledger_init (\<lambda>n. E0) fs_garbage = Returns \<lparr>entries = [], files = fs_garbage\<rparr>"
  "Ledger_init (\<lambda>n. E0) fs_two = Returns \<lparr>entries = [e_salary, e_loaded], files = fs_two\<rparr>"
  "Ledger_init (\<lambda>n. E0) fs_huge = Returns \<lparr>entries = [], files = fs_huge\<rparr>"
proof -
  show "Ledger_init (\<lambda>n. E0) no_files = Returns \<lparr>entries = [], files = no_files\<rparr>"
    by (simp add: Ledger_init_def load_def no_files_def)
  show "Ledger_init (\<lambda>n. E0) fs_garbage = Returns \<lparr>entries = [], files = fs_garbage\<rparr>"
    by (simp add: Ledger_init_def load_def read_entries_def fs_garbage_def E0_def)
  have "map (\<lambda>(i, d). from_item E0 d)
         (enumerate 0 [PDict (to_dict e_salary), PDict [(''title'', PStr ''Rent'')]])
       = map Returns [e_salary, e_loaded]"
    by (simp add: from_dict_def Entry_init_def dict_get_def py_or_def float_limit_pos
        E0_def to_dict_def e_salary_def e_loaded_def)
  moreover have "fs_two DATA_FILE
      = Some (Json (PList [PDict (to_dict e_salary), PDict [(''title'', PStr ''Rent'')]]))"
    by (simp add: fs_two_def)
  ultimately show "Ledger_init (\<lambda>n. E0) fs_two
      = Returns \<lparr>entries = [e_salary, e_loaded], files = fs_two\<rparr>"
    by (rule Ledger_init_array [rotated])
  have "float_limit \<le> \<bar>2 * 10 ^ 308\<bar>"
    by (simp add: float_limit_def)
  then have "from_item E0 (PDict [(''title'', PStr ''Rent''), (''amount'', PInt (2 * 10 ^ 308))])
      = Raises OverflowError"
    by (simp add: from_dict_def Entry_init_def dict_get_def)
  then show "Ledger_init (\<lambda>n. E0) fs_huge = Returns \<lparr>entries = [], files = fs_huge\<rparr>"
    by (simp add: Ledger_init_def load_def read_entries_def fs_huge_def E0_def)
qed

text \<open>
  A ledger constructed on the file that \<open>save\<close> wrote for entries with identifiers and
  dates has these entries again.
\<close>

lemma Ledger_init_after_save:
  assumes "fs DATA_FILE = Some (Json (PList (map (\<lambda>e. PDict (to_dict e)) es)))"
    and "\<forall>e\<in>set es. id' e \<noteq> [] \<and> date e \<noteq> []"
  shows "Ledger_init Es fs = Returns \<lparr>entries = es, files = fs\<rparr>"
proof -
  have "map (\<lambda>(i, d). from_item (Es i) d) (enumerate n (map (\<lambda>e. PDict (to_dict e)) es))
          = map Returns es" for n
    using assms(2) by (induction es arbitrary: n) (simp_all add: from_dict_to_dict_eq)
  with assms(1) show ?thesis by (intro Ledger_init_array)
qed

section \<open>The data file after each call\<close>







lemma in_sync_written:
  "fs DATA_FILE = Some (Json (PList (map (\<lambda>e. PDict (to_dict e)) es)))
     \<Longrightarrow> in_sync \<lparr>entries = es, files = fs\<rparr>"
  by (simp add: in_sync_def)




section \<open>Exporting\<close>

lemma line_count_append: "line_count (a @ b) = line_count a + line_count b"
  by (simp add: line_count_def)

lemma count_list_concat_map:
  "count_list (concat (map f t)) c = (\<Sum>x\<leftarrow>t. count_list (f x) c)"
  by (induction t) simp_all

lemma line_count_csv_field: "line_count (csv_field t) = line_count t"
proof -
  have "count_list (concat (map (\<lambda>c. if c = DQ then [DQ, DQ] else [c]) t)) LF = count_list t LF"
    by (induction t) (auto simp: DQ_def LF_def)
  then show ?thesis
    by (simp add: csv_field_def line_count_def DQ_def LF_def)
qed

lemma line_count_csv_join:
  "line_count (csv_join fs) = (\<Sum>f\<leftarrow>fs. line_count f)"
  by (induction fs rule: csv_join.induct) (simp_all add: line_count_def LF_def)

lemma line_count_writerow:
  "line_count (writerow fs) = Suc (\<Sum>f\<leftarrow>fs. line_count f)"
  by (simp add: writerow_def line_count_append line_count_csv_join line_count_csv_field
      o_def) (simp add: line_count_def CR_def LF_def)

text \<open>Quoting: a comma, a double quote and a carriage return in the fields of a row.\<close>

lemma writerow_example:
  "writerow [''a,b'', ''q'' @ [DQ] @ ''q'', '' x '', [], ''c'' @ [CR] @ ''d'']
     = [DQ] @ ''a,b'' @ [DQ] @ '','' @ [DQ] @ ''q'' @ [DQ, DQ] @ ''q'' @ [DQ] @ '', x ,,''
       @ [DQ] @ ''c'' @ [CR] @ ''d'' @ [DQ, CR, LF]"
  by (simp add: writerow_def csv_field_def needs_quote_def DQ_def CR_def LF_def)

lemma writerow_fieldnames:
  "writerow fieldnames = ''id,date,title,category,kind,amount,note'' @ [CR, LF]"
  by (simp add: writerow_def fieldnames_def csv_field_def needs_quote_def DQ_def CR_def LF_def)

lemma dict_writerow_to_dict:
  "dict_writerow E (to_dict e) =
     writerow [id' e, date e, title e, category e, kind e, str_of E (PNum (amount e)), note' e]"
  by (simp add: dict_writerow_def fieldnames_def to_dict_def dict_get_def csv_cell_def)

lemma list_all_single: "entries s = [e] \<Longrightarrow> list_all' s = [e]"
  by (simp add: list_all'_def sorted_reverse_def)

text \<open>
  C9, as the code has it. \<open>export_csv\<close> writes to the given path the header row
  \<open>id,date,title,category,kind,amount,note\<close> followed by one row for each entry of
  \<open>list_all\<close>, in that order, with the fields in the order of the header, and returns
  the path. For a ledger of one entry the text is the header row and one data row; it has
  two line feeds more than the fields of the entry hold, so exactly two lines when no
  field holds a line feed.
\<close>

theorem export_csv_rows:
  "export_csv E s csv_path =
     (s\<lparr>files := (files s)(csv_path \<mapsto>
          Csv (''id,date,title,category,kind,amount,note'' @ [CR, LF]
               @ concat (map (\<lambda>e. writerow [id' e, date e, title e, category e, kind e,
                                              str_of E (PNum (amount e)), note' e])
                           (list_all' s))))\<rparr>,
      csv_path)
   \<and> (entries s = [e] \<longrightarrow>
        files (fst (export_csv E s csv_path)) csv_path =
          Some (Csv (''id,date,title,category,kind,amount,note'' @ [CR, LF]
                     @ writerow [id' e, date e, title e, category e, kind e,
                                 str_of E (PNum (amount e)), note' e]))
        \<and> line_count (''id,date,title,category,kind,amount,note'' @ [CR, LF]
                     @ writerow [id' e, date e, title e, category e, kind e,
                                 str_of E (PNum (amount e)), note' e])
            = 2 + line_count (id' e) + line_count (date e) + line_count (title e)
                + line_count (category e) + line_count (kind e)
                + line_count (str_of E (PNum (amount e))) + line_count (note' e))"
proof -
  have whole: "export_csv E s csv_path =
     (s\<lparr>files := (files s)(csv_path \<mapsto>
          Csv (''id,date,title,category,kind,amount,note'' @ [CR, LF]
               @ concat (map (\<lambda>e. writerow [id' e, date e, title e, category e, kind e,
                                              str_of E (PNum (amount e)), note' e])
                           (list_all' s))))\<rparr>,
      csv_path)"
    by (simp only: export_csv_def Let_def writerow_fieldnames dict_writerow_to_dict append_assoc)
  have lines: "line_count (''id,date,title,category,kind,amount,note'' @ [CR, LF]
                     @ writerow [id' e, date e, title e, category e, kind e,
                                 str_of E (PNum (amount e)), note' e])
            = 2 + line_count (id' e) + line_count (date e) + line_count (title e)
                + line_count (category e) + line_count (kind e)
                + line_count (str_of E (PNum (amount e))) + line_count (note' e)"
    unfolding line_count_append line_count_writerow
    by (simp add: line_count_def CR_def LF_def)
  show ?thesis
    unfolding whole using lines by (simp add: list_all_single)
qed

theorem export_csv_rows_witness:
  "entries L6 = [e_rent]
   \<and> files (fst (export_csv E0 L6 ''export.csv'')) ''export.csv'' =
       Some (Csv (''id,date,title,category,kind,amount,note'' @ [CR, LF]
                  @ ''b2,2024-01-01,Rent,Home,expense,40.0,'' @ [CR, LF]))
   \<and> line_count (''id,date,title,category,kind,amount,note'' @ [CR, LF]
                  @ ''b2,2024-01-01,Rent,Home,expense,40.0,'' @ [CR, LF]) = 2"
proof -
  have h: "entries L6 = [e_rent]" by (simp add: L6_def)
  have row: "writerow [id' e_rent, date e_rent, title e_rent, category e_rent, kind e_rent,
                       str_of E0 (PNum (amount e_rent)), note' e_rent]
             = ''b2,2024-01-01,Rent,Home,expense,40.0,'' @ [CR, LF]"
    by (simp add: writerow_def csv_field_def needs_quote_def e_rent_def E0_def DQ_def CR_def
        LF_def)
  have fields: "line_count (id' e_rent) = 0" "line_count (date e_rent) = 0"
    "line_count (title e_rent) = 0" "line_count (category e_rent) = 0"
    "line_count (kind e_rent) = 0" "line_count (str_of E0 (PNum (amount e_rent))) = 0"
    "line_count (note' e_rent) = 0"
    by (simp_all add: line_count_def e_rent_def E0_def LF_def)
  note both = export_csv_rows [of E0 L6 "''export.csv''" e_rent, THEN conjunct2, THEN mp, OF h]
  from both [THEN conjunct1] have written:
    "files (fst (export_csv E0 L6 ''export.csv'')) ''export.csv'' =
       Some (Csv (''id,date,title,category,kind,amount,note'' @ [CR, LF]
                  @ ''b2,2024-01-01,Rent,Home,expense,40.0,'' @ [CR, LF]))"
    by (simp only: row)
  from both [THEN conjunct2] have two:
    "line_count (''id,date,title,category,kind,amount,note'' @ [CR, LF]
                  @ ''b2,2024-01-01,Rent,Home,expense,40.0,'' @ [CR, LF]) = 2"
    by (simp only: row fields add_0_right)
  from h written two show ?thesis by (intro conjI)
qed

text \<open>
  C9 as stated fails in its last part: a line feed in the note is written as it is,
  between double quotes, and the export of this one entry has three lines.
\<close>

theorem export_csv_three_lines:
  "entries L5 = [e_memo]
   \<and> files (fst (export_csv E0 L5 ''export.csv'')) ''export.csv'' =
       Some (Csv (''id,date,title,category,kind,amount,note'' @ [CR, LF]
                  @ ''e5,2024-04-01,Shop,Food,expense,40.0,'' @ [DQ] @ ''milk'' @ [LF]
                  @ ''eggs'' @ [DQ, CR, LF]))
   \<and> line_count (''id,date,title,category,kind,amount,note'' @ [CR, LF]
                  @ ''e5,2024-04-01,Shop,Food,expense,40.0,'' @ [DQ] @ ''milk'' @ [LF]
                  @ ''eggs'' @ [DQ, CR, LF]) = 3"
proof -
  have "list_all' L5 = [e_memo]"
    by (simp add: list_all_single L5_def)
  moreover have "dict_writerow E0 (to_dict e_memo) =
      ''e5,2024-04-01,Shop,Food,expense,40.0,'' @ [DQ] @ ''milk'' @ [LF] @ ''eggs''
        @ [DQ, CR, LF]"
    by (simp add: dict_writerow_to_dict writerow_def csv_field_def needs_quote_def e_memo_def
        E0_def DQ_def CR_def LF_def)
  ultimately show ?thesis
    by (simp add: export_csv_def writerow_fieldnames L5_def)
      (simp add: line_count_def DQ_def CR_def LF_def)
qed

end
